theory Spec2Isabelle
  imports Complex_Main "HOL-Library.Sublist" "HOL-Library.AList"
begin

section \<open>The WebSocket gateway of s3-extend (\<^verbatim>\<open>s3_extend/gateways/ws_gateway.py\<close>)\<close>

text \<open>
  The gateway bridges WebSocket clients and the Banyan publish/subscribe bus. The class
  \<^verbatim>\<open>WsGateway\<close> keeps one table, \<^verbatim>\<open>active_sockets\<close>, and has three coroutines:
  \<^verbatim>\<open>wsg\<close> (the handshake of a new connection), \<^verbatim>\<open>receive_data\<close> (the loop that
  forwards the client's frames to the bus) and \<^verbatim>\<open>incoming_message_processing\<close> (the
  callback that forwards a bus message to the clients).

  Each coroutine is a function from the gateway's state to an outcome and the state it
  leaves behind. The coroutines run on one event loop and give way to one another only
  where they \<^verbatim>\<open>await\<close>. The functions \<open>wsg\<close>, \<open>receive_data\<close> and
  \<open>incoming_message_processing\<close> run a coroutine with no other task taking a step in
  between; \<open>incoming_message_processing_among\<close> runs the router with the steps that
  other tasks take at its suspension points. What the libraries do (the
  \<^verbatim>\<open>websockets\<close> connection, \<^verbatim>\<open>json\<close>, \<^verbatim>\<open>datetime\<close>, the Banyan base class) is
  modelled by its contract and marked as such.
\<close>

subsection \<open>Python values and exceptions\<close>

text \<open>
  The exceptions that the modelled code can meet. \<open>ConnectionClosedOK\<close> and
  \<open>ConnectionClosedError\<close> are the two subclasses of
  \<^verbatim>\<open>websockets.exceptions.ConnectionClosed\<close>; \<open>JSONDecodeError\<close> is a subclass of
  \<^verbatim>\<open>ValueError\<close>, not of \<^verbatim>\<open>TypeError\<close>; \<open>RangeError\<close> stands for what
  \<^verbatim>\<open>datetime.fromtimestamp\<close> raises for a number that it cannot turn into a date
  (\<^verbatim>\<open>ValueError\<close>, \<^verbatim>\<open>OverflowError\<close> or \<^verbatim>\<open>OSError\<close>, by the case).
\<close>

datatype exn =
    ConnectionClosedOK
  | ConnectionClosedError
  | JSONDecodeError
  | TypeError
  | KeyError
  | AttributeError
  | UnboundLocalError
  | RangeError

definition is_ConnectionClosed :: "exn \<Rightarrow> bool" where
  "is_ConnectionClosed e \<longleftrightarrow> e = ConnectionClosedOK \<or> e = ConnectionClosedError"

text \<open>
  A Python \<^verbatim>\<open>float\<close> is a double: \<open>Finite x\<close> is the double whose value is the
  rational \<open>x\<close>; \<^verbatim>\<open>json.loads\<close> also reads \<^verbatim>\<open>NaN\<close>, \<^verbatim>\<open>Infinity\<close> and
  \<^verbatim>\<open>-Infinity\<close>.
\<close>

datatype pyfloat = Finite rat | NaN | PosInf | NegInf

text \<open>
  A JSON value as \<^verbatim>\<open>json.loads\<close> returns it: an object is a Python dict, kept as an
  association list in insertion order; a number is a Python \<^verbatim>\<open>int\<close> or a
  \<^verbatim>\<open>float\<close>.
\<close>

datatype json =
    JNull
  | JBool bool
  | JInt int
  | JFloat pyfloat
  | JStr string
  | JArr "json list"
  | JObj "(string \<times> json) list"

text \<open>
  A WebSocket frame is represented by what \<^verbatim>\<open>json.loads\<close> makes of its text:
  \<open>Text v\<close> is a frame on whose text \<^verbatim>\<open>json.loads\<close> returns \<open>v\<close>, \<open>Malformed\<close> a frame
  whose text is not JSON (for instance \<^verbatim>\<open>{\<close>), on which it raises. In the other
  direction \<open>Text v\<close> is the frame carrying \<^verbatim>\<open>json.dumps(v)\<close>.
\<close>

datatype frame = Text json | Malformed

definition json_loads :: "frame \<Rightarrow> exn + json" where
  "json_loads f = (case f of Text v \<Rightarrow> Inr v | Malformed \<Rightarrow> Inl JSONDecodeError)"

text \<open>\<^verbatim>\<open>data[k]\<close> for a string \<open>k\<close>: only a dict can be indexed by a string.\<close>

definition getitem :: "json \<Rightarrow> string \<Rightarrow> exn + json" where
  "getitem data k =
     (case data of
        JObj obj \<Rightarrow> (case map_of obj k of None \<Rightarrow> Inl KeyError | Some v \<Rightarrow> Inr v)
      | _ \<Rightarrow> Inl TypeError)"

subsection \<open>\<^verbatim>\<open>str.replace\<close> and the subscriber string\<close>

text \<open>
  \<^verbatim>\<open>s.replace(old, new)\<close> without a count replaces every occurrence of \<open>old\<close>, scanning
  from the left and resuming after each replaced occurrence. For the empty \<open>old\<close> Python
  inserts \<open>new\<close> before every character and at the end.
\<close>

function replace_py :: "string \<Rightarrow> string \<Rightarrow> string \<Rightarrow> string" where
  "replace_py old new [] = (if old = [] then new else [])"
| "replace_py old new (c # cs) =
     (if old = [] then new @ c # replace_py old new cs
      else if prefix old (c # cs)
        then new @ replace_py old new (drop (length old) (c # cs))
      else c # replace_py old new cs)"
  by pat_completeness auto
termination
  by (relation "measure (\<lambda>(old, new, s). length s)") auto

text \<open>Line 149: \<^verbatim>\<open>subscriber_string = id_string.replace('to', 'from')\<close>.\<close>

definition subscriber_string :: "string \<Rightarrow> string" where
  "subscriber_string id_string = replace_py ''to'' ''from'' id_string"

text \<open>The same call on a JSON value: only a \<^verbatim>\<open>str\<close> has the method \<^verbatim>\<open>replace\<close>.\<close>

definition id_replace :: "json \<Rightarrow> exn + string \<times> string" where
  "id_replace v =
     (case v of JStr id_string \<Rightarrow> Inr (id_string, subscriber_string id_string)
      | _ \<Rightarrow> Inl AttributeError)"

text \<open>
  The policy as the specification words it, for comparison: only the first occurrence of
  \<open>old\<close> is replaced (Python's \<^verbatim>\<open>s.replace(old, new, 1)\<close>).
\<close>

fun replace_first :: "string \<Rightarrow> string \<Rightarrow> string \<Rightarrow> string" where
  "replace_first old new [] = (if old = [] then new else [])"
| "replace_first old new (c # cs) =
     (if prefix old (c # cs) then new @ drop (length old) (c # cs)
      else c # replace_first old new cs)"

subsection \<open>The gateway's state\<close>

text \<open>
  A connection handle is an object; only its identity matters. An entry of
  \<^verbatim>\<open>active_sockets\<close> is a dict whose keys are a connection object and a string and whose
  values are a string and a connection object.
\<close>

type_synonym ws = nat

datatype key = KSock ws | KStr string

datatype val = VSock ws | VStr string

type_synonym entry = "key \<rightharpoonup> val"

text \<open>
  \<open>active_sockets\<close> and \<open>wsocket\<close> are the attributes of the class. The other fields
  record the effects on the collaborators: \<open>closed\<close> the connections that are closed,
  \<open>sent\<close> the frames sent to clients (oldest first), \<open>published\<close> the calls of
  \<^verbatim>\<open>publish_payload(payload, topic)\<close>, \<open>subscribed\<close> the calls of
  \<^verbatim>\<open>set_subscriber_topic\<close>. \<open>utcoffset t\<close> is the offset of local time from UTC, in
  seconds, in force at the instant \<open>t\<close>: the timezone of the process.
\<close>

record gateway =
  active_sockets :: "entry list"
  wsocket :: "ws option"
  closed :: "ws set"
  sent :: "(ws \<times> frame) list"
  published :: "(json \<times> string) list"
  subscribed :: "string list"
  utcoffset :: "int \<Rightarrow> int"

text \<open>
  How a coroutine ends: it returns, an exception leaves it, or it is still waiting in
  \<^verbatim>\<open>recv()\<close> because the client has sent nothing more.
\<close>

datatype outcome = Returned | Raised exn | Suspended

text \<open>
  The connection, by the contract of the \<^verbatim>\<open>websockets\<close> library: \<^verbatim>\<open>close()\<close> closes
  the connection and does nothing on a closed one; \<^verbatim>\<open>send()\<close> on a closed connection
  raises \<^verbatim>\<open>ConnectionClosed\<close> (\<open>ConnectionClosedOK\<close> after a normal closure).
\<close>

definition ws_close :: "ws \<Rightarrow> gateway \<Rightarrow> gateway" where
  "ws_close w s = s\<lparr>closed := insert w (closed s)\<rparr>"

definition ws_send :: "ws \<Rightarrow> frame \<Rightarrow> gateway \<Rightarrow> exn + gateway" where
  "ws_send w f s =
     (if w \<in> closed s then Inl ConnectionClosedOK
      else Inr (s\<lparr>sent := sent s @ [(w, f)]\<rparr>))"

text \<open>The two calls into the Banyan base class, recorded as they are made.\<close>

definition set_subscriber_topic :: "string \<Rightarrow> gateway \<Rightarrow> gateway" where
  "set_subscriber_topic topic s = s\<lparr>subscribed := subscribed s @ [topic]\<rparr>"

definition publish_payload :: "json \<Rightarrow> string \<Rightarrow> gateway \<Rightarrow> gateway" where
  "publish_payload payload topic s = s\<lparr>published := published s @ [(payload, topic)]\<rparr>"

subsection \<open>\<^verbatim>\<open>receive_data\<close>: the relay from the client to the bus\<close>

text \<open>
  The third argument lists what the successive calls of \<^verbatim>\<open>websocket.recv()\<close> give: a
  frame, or the exception that \<^verbatim>\<open>recv\<close> raises. The handler of lines 172 to 177
  catches \<^verbatim>\<open>ConnectionClosed\<close> and \<^verbatim>\<open>TypeError\<close>, filters the table and leaves the
  loop; any other exception leaves the coroutine with the table as it is.
\<close>

definition in_entry :: "key \<Rightarrow> entry \<Rightarrow> bool" where
  "in_entry k e \<longleftrightarrow> e k \<noteq> None"

definition remove_entries :: "ws \<Rightarrow> gateway \<Rightarrow> gateway" where
  "remove_entries websocket s =
     s\<lparr>active_sockets :=
         filter (\<lambda>entry. \<not> in_entry (KSock websocket) entry) (active_sockets s)\<rparr>"

fun receive_data :: "ws \<Rightarrow> string \<Rightarrow> (exn + frame) list \<Rightarrow> gateway \<Rightarrow> outcome \<times> gateway" where
  "receive_data websocket publisher_topic [] s = (Suspended, s)"
| "receive_data websocket publisher_topic (r # rest) s =
     (case (case r of Inl e \<Rightarrow> Inl e | Inr data \<Rightarrow> json_loads data) of
        Inl e \<Rightarrow>
          if is_ConnectionClosed e \<or> e = TypeError
          then (Returned, remove_entries websocket s)
          else (Raised e, s)
      | Inr data \<Rightarrow>
          receive_data websocket publisher_topic rest (publish_payload data publisher_topic s))"

subsection \<open>\<^verbatim>\<open>wsg\<close>: the handshake\<close>

text \<open>
  Lines 128 to 159. \<^verbatim>\<open>self.begin()\<close> belongs to the Banyan base class and is taken to
  return. When \<^verbatim>\<open>recv()\<close> raises \<open>ConnectionClosedOK\<close> the handler of line 135 passes,
  and line 139 then reads the local variable \<^verbatim>\<open>data\<close>, which was never assigned.
\<close>

definition new_entry :: "ws \<Rightarrow> string \<Rightarrow> entry" where
  "new_entry websocket sub =
     [KSock websocket \<mapsto> VStr ''to_banyan_topic'', KStr sub \<mapsto> VSock websocket]"

definition wsg :: "ws \<Rightarrow> (exn + frame) list \<Rightarrow> gateway \<Rightarrow> outcome \<times> gateway" where
  "wsg websocket rs s0 =
     (let s = s0\<lparr>wsocket := Some websocket\<rparr> in
      case rs of
        [] \<Rightarrow> (Suspended, s)
      | Inl e # rest \<Rightarrow>
          if e = ConnectionClosedOK then (Raised UnboundLocalError, s) else (Raised e, s)
      | Inr data # rest \<Rightarrow>
          (case json_loads data of
             Inl e \<Rightarrow> (Raised e, s)
           | Inr data \<Rightarrow>
               (case getitem data ''id'' of
                  Inl e \<Rightarrow> (Raised e, s)
                | Inr v \<Rightarrow>
                    (case id_replace v of
                       Inl e \<Rightarrow> (Raised e, s)
                     | Inr (id_string, sub) \<Rightarrow>
                         let s1 = set_subscriber_topic sub s;
                             s2 = s1\<lparr>active_sockets :=
                                       active_sockets s1 @ [new_entry websocket sub]\<rparr>
                         in receive_data websocket id_string rest s2))))"


subsection \<open>The timestamp: \<^verbatim>\<open>datetime.fromtimestamp(t).strftime('%Y-%m-%d %H:%M:%S')\<close>\<close>

text \<open>
  The library call of lines 198 and 199, as CPython on a POSIX system with glibc carries
  it out.

  The argument must be a number (a Python \<^verbatim>\<open>bool\<close> is an \<^verbatim>\<open>int\<close>); anything else
  raises \<^verbatim>\<open>TypeError\<close>. It is first turned into whole seconds that fit the 64-bit
  \<^verbatim>\<open>time_t\<close>. An \<^verbatim>\<open>int\<close> is taken as it is. A \<^verbatim>\<open>float\<close> is split by \<^verbatim>\<open>modf\<close> into its
  integral part, towards zero, and its fraction; the fraction times 1000000 is rounded
  to a double and then to an integer, ties to even, and a result of 1000000 or below
  zero carries into the seconds. The product rounds to a double of at least 999999.5
  exactly when it is at least \<^verbatim>\<open>999999.5 - 2**-34\<close>, and to a double below -0.5
  exactly when it is below \<^verbatim>\<open>-0.5 - 2**-54\<close>. The microseconds do not show in the
  format of line 199.
\<close>

definition time_t :: "int \<Rightarrow> exn + int" where
  "time_t t = (if - (2 ^ 63) \<le> t \<and> t < 2 ^ 63 then Inr t else Inl RangeError)"

definition float_seconds :: "rat \<Rightarrow> int" where
  "float_seconds x =
     (let intpart = (if 0 \<le> x then \<lfloor>x\<rfloor> else \<lceil>x\<rceil>);
          floatpart = (x - of_int intpart) * 1000000
      in if 1999999 / 2 - 1 / 2 ^ 34 \<le> floatpart then intpart + 1
         else if floatpart < - (1 / 2) - 1 / 2 ^ 54 then intpart - 1
         else intpart)"

definition timestamp_arg :: "json \<Rightarrow> exn + int" where
  "timestamp_arg v =
     (case v of
        JInt t \<Rightarrow> time_t t
      | JBool b \<Rightarrow> Inr (if b then 1 else 0)
      | JFloat (Finite x) \<Rightarrow> time_t (float_seconds x)
      | JFloat _ \<Rightarrow> Inl RangeError
      | _ \<Rightarrow> Inl TypeError)"

definition numeric :: "json \<Rightarrow> bool" where
  "numeric v =
     (case v of JInt t \<Rightarrow> True | JBool b \<Rightarrow> True | JFloat x \<Rightarrow> True | _ \<Rightarrow> False)"

text \<open>
  The calendar fields of a number of seconds of local time, counted from 1970-01-01:
  the proleptic Gregorian calendar, computed the way Python's \<^verbatim>\<open>datetime\<close> module
  does it from the day's ordinal (day 1 is 0001-01-01, day 719163 is 1970-01-01).
\<close>

definition days_before_month :: "nat list" where
  "days_before_month = [0, 0, 31, 59, 90, 120, 151, 181, 212, 243, 273, 304, 334]"

definition days_in_month :: "nat list" where
  "days_in_month = [0, 31, 28, 31, 30, 31, 30, 31, 31, 30, 31, 30, 31]"

definition month_day :: "bool \<Rightarrow> nat \<Rightarrow> nat \<times> nat" where
  "month_day leapyear n =
     (let month = (n + 50) div 32;
          preceding = days_before_month ! month + (if month > 2 \<and> leapyear then 1 else 0)
      in if preceding > n
         then (month - 1,
               n - (preceding - (days_in_month ! (month - 1)
                                 + (if month - 1 = 2 \<and> leapyear then 1 else 0))) + 1)
         else (month, n - preceding + 1))"

definition ord2ymd :: "nat \<Rightarrow> nat \<times> nat \<times> nat" where
  "ord2ymd ordinal =
     (let n = ordinal - 1;
          n400 = n div 146097; n = n mod 146097;
          n100 = n div 36524; n = n mod 36524;
          n4 = n div 1461; n = n mod 1461;
          n1 = n div 365; n = n mod 365;
          year = n400 * 400 + 1 + n100 * 100 + n4 * 4 + n1
      in if n1 = 4 \<or> n100 = 4 then (year - 1, 12, 31)
         else (case month_day (n1 = 3 \<and> (n4 \<noteq> 24 \<or> n100 = 3)) n of
                 (month, day) \<Rightarrow> (year, month, day)))"

record datetime =
  year :: nat
  month :: nat
  day :: nat
  hour :: nat
  minute :: nat
  second :: nat

definition calendar_fields :: "int \<Rightarrow> datetime" where
  "calendar_fields local =
     (let secs = nat (local mod 86400) in
      case ord2ymd (nat (local div 86400 + 719163)) of
        (y, m, d) \<Rightarrow>
          \<lparr>year = y, month = m, day = d, hour = secs div 3600,
           minute = secs mod 3600 div 60, second = secs mod 60\<rparr>)"

text \<open>
  A date must lie in the years 1 to 9999: in seconds of local time, from
  0001-01-01 00:00:00 to 9999-12-31 23:59:59. \<^verbatim>\<open>fromtimestamp\<close> builds the local time
  of the instant and, to tell the two readings of a repeated hour apart, also the local
  time of the instant one day earlier; when the offset from UTC has gone down over that
  day, by \<open>transition\<close> seconds, it builds a third local time. Each of them must be a
  date, or \<^verbatim>\<open>ValueError\<close> is raised. The result has the fields of the first.
\<close>

definition in_years :: "int \<Rightarrow> bool" where
  "in_years local \<longleftrightarrow> - 62135596800 \<le> local \<and> local \<le> 253402300799"

definition fromtimestamp :: "(int \<Rightarrow> int) \<Rightarrow> int \<Rightarrow> exn + datetime" where
  "fromtimestamp off t =
     (let local = (\<lambda>u. u + off u);
          transition = local t - local (t - 86400) - 86400
      in if \<not> in_years (local t) then Inl RangeError
         else if \<not> in_years (local (t - 86400)) then Inl RangeError
         else if transition < 0 \<and> \<not> in_years (local (t + transition)) then Inl RangeError
         else Inr (calendar_fields (local t)))"

text \<open>
  \<^verbatim>\<open>strftime\<close> of the C library: \<^verbatim>\<open>%Y\<close> is the year in decimal, with as many digits
  as it has, and each of the other fields is padded with zeros to two digits.
\<close>

definition digit :: "nat \<Rightarrow> char" where
  "digit d = ''0123456789'' ! d"

function dec :: "nat \<Rightarrow> string" where
  "dec n = (if n < 10 then [digit n] else dec (n div 10) @ [digit (n mod 10)])"
  by pat_completeness auto
termination
  by (relation "measure id") auto

declare dec.simps [simp del]

definition zero_pad :: "nat \<Rightarrow> nat \<Rightarrow> string" where
  "zero_pad width n = replicate (width - length (dec n)) CHR ''0'' @ dec n"

definition strftime :: "datetime \<Rightarrow> string" where
  "strftime dt =
     dec (year dt) @ ''-'' @ zero_pad 2 (month dt) @ ''-'' @ zero_pad 2 (day dt)
     @ '' '' @ zero_pad 2 (hour dt) @ '':'' @ zero_pad 2 (minute dt)
     @ '':'' @ zero_pad 2 (second dt)"

subsection \<open>\<^verbatim>\<open>incoming_message_processing\<close>: the router from the bus to the clients\<close>

text \<open>
  Lines 192 to 195 and 206 to 209: the two scans of \<^verbatim>\<open>active_sockets\<close>. An entry
  matches when the topic is one of its keys; \<^verbatim>\<open>socket[topic]\<close> is then closed, or
  sent the frame. Neither loop has an exception handler. A string stored under the
  topic has no \<^verbatim>\<open>close\<close> or \<^verbatim>\<open>send\<close>.
\<close>

fun close_matching :: "string \<Rightarrow> entry list \<Rightarrow> gateway \<Rightarrow> outcome \<times> gateway" where
  "close_matching topic [] s = (Returned, s)"
| "close_matching topic (socket # rest) s =
     (if in_entry (KStr topic) socket then
        (case socket (KStr topic) of
           Some (VSock pub_socket) \<Rightarrow> close_matching topic rest (ws_close pub_socket s)
         | _ \<Rightarrow> (Raised AttributeError, s))
      else close_matching topic rest s)"

fun send_matching :: "string \<Rightarrow> frame \<Rightarrow> entry list \<Rightarrow> gateway \<Rightarrow> outcome \<times> gateway" where
  "send_matching topic ws_data [] s = (Returned, s)"
| "send_matching topic ws_data (socket # rest) s =
     (if in_entry (KStr topic) socket then
        (case socket (KStr topic) of
           Some (VSock pub_socket) \<Rightarrow>
             (case ws_send pub_socket ws_data s of
                Inl e \<Rightarrow> (Raised e, s)
              | Inr s' \<Rightarrow> send_matching topic ws_data rest s')
         | _ \<Rightarrow> (Raised AttributeError, s))
      else send_matching topic ws_data rest s)"

text \<open>
  Lines 197 to 200: when the payload has the key \<^verbatim>\<open>timestamp\<close>, its value is replaced
  by the formatted string; the library call may raise.
\<close>

definition normalize_timestamp ::
  "(int \<Rightarrow> int) \<Rightarrow> (string \<times> json) list \<Rightarrow> exn + (string \<times> json) list" where
  "normalize_timestamp off payload =
     (case map_of payload ''timestamp'' of
        None \<Rightarrow> Inr payload
      | Some v \<Rightarrow>
          (case timestamp_arg v of
             Inl e \<Rightarrow> Inl e
           | Inr t \<Rightarrow>
               (case fromtimestamp off t of
                  Inl e \<Rightarrow> Inl e
                | Inr dt \<Rightarrow> Inr (AList.update ''timestamp'' (JStr (strftime dt)) payload))))"

text \<open>
  Lines 190 to 209. The payload is a dict; \<^verbatim>\<open>payload['report']\<close> raises
  \<^verbatim>\<open>KeyError\<close> when the key is missing.
\<close>

definition incoming_message_processing ::
  "string \<Rightarrow> (string \<times> json) list \<Rightarrow> gateway \<Rightarrow> outcome \<times> gateway" where
  "incoming_message_processing topic payload s =
     (case map_of payload ''report'' of
        None \<Rightarrow> (Raised KeyError, s)
      | Some report \<Rightarrow>
          (case (if report = JStr ''panic''
                 then close_matching topic (active_sockets s) s
                 else (Returned, s)) of
             (Returned, s1) \<Rightarrow>
               (case normalize_timestamp (utcoffset s1) payload of
                  Inl e \<Rightarrow> (Raised e, s1)
                | Inr payload' \<Rightarrow>
                    send_matching topic (Text (JObj payload')) (active_sockets s1) s1)
           | (out, s1) \<Rightarrow> (out, s1)))"

subsection \<open>The router among the other tasks\<close>

text \<open>
  The router gives way at every \<^verbatim>\<open>await pub_socket.close()\<close> and
  \<^verbatim>\<open>await pub_socket.send(ws_data)\<close>. Two kinds of step that another task takes
  there touch \<^verbatim>\<open>active_sockets\<close>: the relay of a connection ends (lines 172 to 177),
  and a new client completes its handshake (lines 128 to 159, up to the relay's first
  \<^verbatim>\<open>recv\<close>).
\<close>

datatype task_step = Relay_ends ws | Registers ws string

text \<open>
  A relay ends when its \<^verbatim>\<open>recv\<close> raises \<^verbatim>\<open>ConnectionClosed\<close>: the connection is
  closed, and the relay binds \<^verbatim>\<open>active_sockets\<close> to a new, filtered list. A handshake
  appends its entry to the list that \<^verbatim>\<open>active_sockets\<close> names at that moment.
\<close>

definition relay_ends :: "ws \<Rightarrow> gateway \<Rightarrow> gateway" where
  "relay_ends w s = remove_entries w (s\<lparr>closed := insert w (closed s)\<rparr>)"

definition registers :: "ws \<Rightarrow> string \<Rightarrow> gateway \<Rightarrow> gateway" where
  "registers w id_string s = snd (wsg w [Inr (Text (JObj [(''id'', JStr id_string)]))] s)"

text \<open>
  A \<^verbatim>\<open>for\<close> loop of the router walks the list object that \<^verbatim>\<open>active_sockets\<close> named
  when the loop began. \<open>rest\<close> is the part of that object not yet visited and \<open>bound\<close>
  tells whether \<^verbatim>\<open>active_sockets\<close> still names it: a relay that ends rebinds the
  attribute and leaves the object alone, a handshake appends to the object as long as
  it is still the attribute's value.
\<close>

fun other_task ::
  "task_step \<Rightarrow> entry list \<times> bool \<times> gateway \<Rightarrow> entry list \<times> bool \<times> gateway" where
  "other_task (Relay_ends w) (rest, bound, s) = (rest, False, relay_ends w s)"
| "other_task (Registers w id_string) (rest, bound, s) =
     (if bound then rest @ [new_entry w (subscriber_string id_string)] else rest,
      bound, registers w id_string s)"

text \<open>
  The schedule lists, for the suspension points of the router in the order in which it
  reaches them, the steps that the other tasks take there; when the list is used up
  no other task takes a step.
\<close>

definition suspended ::
  "task_step list list \<Rightarrow> entry list \<times> bool \<times> gateway \<Rightarrow> entry list \<times> bool \<times> gateway" where
  "suspended sched st = (case sched of [] \<Rightarrow> st | steps # later \<Rightarrow> fold other_task steps st)"

fun is_registration :: "task_step \<Rightarrow> bool" where
  "is_registration (Registers w id_string) = True"
| "is_registration (Relay_ends w) = False"

definition registrations :: "task_step list list \<Rightarrow> nat" where
  "registrations sched = length (filter is_registration (concat sched))"

text \<open>The scans of lines 192 to 195 and 206 to 209 with their suspension points.\<close>

function close_scan ::
  "string \<Rightarrow> task_step list list \<Rightarrow> entry list \<Rightarrow> bool \<Rightarrow> gateway
   \<Rightarrow> outcome \<times> gateway \<times> task_step list list" where
  "close_scan topic sched [] bound s = (Returned, s, sched)"
| "close_scan topic sched (socket # rest) bound s =
     (if in_entry (KStr topic) socket then
        (case socket (KStr topic) of
           Some (VSock pub_socket) \<Rightarrow>
             (let st = suspended sched (rest, bound, ws_close pub_socket s)
              in close_scan topic (tl sched) (fst st) (fst (snd st)) (snd (snd st)))
         | _ \<Rightarrow> (Raised AttributeError, s, sched))
      else close_scan topic sched rest bound s)"
  by pat_completeness auto
termination
proof (relation "measure (\<lambda>(topic, sched, rest, bound, s). length rest + registrations sched)",
    goal_cases)
  case 1
  show ?case by simp
next
  case (2 topic sched socket rest bound s x2 x1 st)
  have one: "length (fst (other_task a q)) \<le> length (fst q) + (if is_registration a then 1 else 0)"
    for a q by (cases a; cases q) auto
  have more: "length (fst (fold other_task steps q))
                \<le> length (fst q) + length (filter is_registration steps)" for steps q
  proof (induction steps arbitrary: q)
    case Nil
    show ?case by simp
  next
    case (Cons a steps)
    show ?case using Cons.IH [of "other_task a q"] one [of a q] by auto
  qed
  have "length (fst (suspended sched q)) + registrations (tl sched)
          \<le> length (fst q) + registrations sched" for q
    using more [of _ q]
    by (cases sched) (auto simp: suspended_def registrations_def add.commute add.left_commute)
  from this [of "(rest, bound, ws_close x1 s)"] 2 show ?case
    by (simp add: case_prod_beta)
next
  case 3
  then show ?case by simp
qed

function send_scan ::
  "string \<Rightarrow> frame \<Rightarrow> task_step list list \<Rightarrow> entry list \<Rightarrow> bool \<Rightarrow> gateway
   \<Rightarrow> outcome \<times> gateway \<times> task_step list list" where
  "send_scan topic ws_data sched [] bound s = (Returned, s, sched)"
| "send_scan topic ws_data sched (socket # rest) bound s =
     (if in_entry (KStr topic) socket then
        (case socket (KStr topic) of
           Some (VSock pub_socket) \<Rightarrow>
             (case ws_send pub_socket ws_data s of
                Inl e \<Rightarrow> (Raised e, s, sched)
              | Inr s1 \<Rightarrow>
                  (let st = suspended sched (rest, bound, s1)
                   in send_scan topic ws_data (tl sched) (fst st) (fst (snd st)) (snd (snd st))))
         | _ \<Rightarrow> (Raised AttributeError, s, sched))
      else send_scan topic ws_data sched rest bound s)"
  by pat_completeness auto
termination
proof (relation
    "measure (\<lambda>(topic, ws_data, sched, rest, bound, s). length rest + registrations sched)",
    goal_cases)
  case 1
  show ?case by simp
next
  case (2 topic ws_data sched socket rest bound s x2 x1 s1 st)
  have one: "length (fst (other_task a q)) \<le> length (fst q) + (if is_registration a then 1 else 0)"
    for a q by (cases a; cases q) auto
  have more: "length (fst (fold other_task steps q))
                \<le> length (fst q) + length (filter is_registration steps)" for steps q
  proof (induction steps arbitrary: q)
    case Nil
    show ?case by simp
  next
    case (Cons a steps)
    show ?case using Cons.IH [of "other_task a q"] one [of a q] by auto
  qed
  have "length (fst (suspended sched q)) + registrations (tl sched)
          \<le> length (fst q) + registrations sched" for q
    using more [of _ q]
    by (cases sched) (auto simp: suspended_def registrations_def add.commute add.left_commute)
  from this [of "(rest, bound, s1)"] 2 show ?case
    by (simp add: case_prod_beta)
next
  case 3
  then show ?case by simp
qed

text \<open>
  Lines 190 to 209 with their suspension points. The result also gives the part of the
  schedule that has not been used.
\<close>

definition incoming_message_processing_among ::
  "task_step list list \<Rightarrow> string \<Rightarrow> (string \<times> json) list \<Rightarrow> gateway
   \<Rightarrow> outcome \<times> gateway \<times> task_step list list" where
  "incoming_message_processing_among sched topic payload s =
     (case map_of payload ''report'' of
        None \<Rightarrow> (Raised KeyError, s, sched)
      | Some report \<Rightarrow>
          (case (if report = JStr ''panic''
                 then close_scan topic sched (active_sockets s) True s
                 else (Returned, s, sched)) of
             (Returned, s1, sched1) \<Rightarrow>
               (case normalize_timestamp (utcoffset s1) payload of
                  Inl e \<Rightarrow> (Raised e, s1, sched1)
                | Inr payload' \<Rightarrow>
                    send_scan topic (Text (JObj payload')) sched1 (active_sockets s1) True s1)
           | (out, s1, sched1) \<Rightarrow> (out, s1, sched1)))"



subsection \<open>Sessions and the table\<close>

text \<open>
  Lines 69 and 89: the attributes as \<^verbatim>\<open>__init__\<close> sets them, with no effect recorded
  yet; the argument is the timezone of the process.
\<close>

definition init_gateway :: "(int \<Rightarrow> int) \<Rightarrow> gateway" where
  "init_gateway off =
     \<lparr>active_sockets = [], wsocket = None, closed = {}, sent = [], published = [],
      subscribed = [], utcoffset = off\<rparr>"

text \<open>
  A session is a connection with the subscribe topic derived at its handshake. The
  table of the sessions \<open>ss\<close> holds the entry of each, in the order of the handshakes.
\<close>

definition table_of :: "(ws \<times> string) list \<Rightarrow> entry list" where
  "table_of ss = map (\<lambda>(w, sub). new_entry w sub) ss"

definition matching :: "string \<Rightarrow> (ws \<times> string) list \<Rightarrow> ws list" where
  "matching topic ss = map fst (filter (\<lambda>(w, sub). sub = topic) ss)"

definition count_entries :: "ws \<Rightarrow> entry list \<Rightarrow> nat" where
  "count_entries w table = length (filter (in_entry (KSock w)) table)"

text \<open>The shape \<^verbatim>\<open>YYYY-MM-DD HH:MM:SS\<close>: nineteen characters, digits and separators.\<close>

definition is_digit :: "char \<Rightarrow> bool" where
  "is_digit c \<longleftrightarrow> c \<in> set ''0123456789''"

fun calendar_shape :: "string \<Rightarrow> bool" where
  "calendar_shape [y1, y2, y3, y4, a, m1, m2, b, d1, d2, c, h1, h2, d, i1, i2, e, s1, s2] \<longleftrightarrow>
     is_digit y1 \<and> is_digit y2 \<and> is_digit y3 \<and> is_digit y4 \<and> a = CHR ''-''
     \<and> is_digit m1 \<and> is_digit m2 \<and> b = CHR ''-'' \<and> is_digit d1 \<and> is_digit d2
     \<and> c = CHR '' '' \<and> is_digit h1 \<and> is_digit h2 \<and> d = CHR '':''
     \<and> is_digit i1 \<and> is_digit i2 \<and> e = CHR '':'' \<and> is_digit s1 \<and> is_digit s2"
| "calendar_shape _ \<longleftrightarrow> False"

subsection \<open>Scenarios\<close>

text \<open>
  Concrete runs for the examples below: a gateway in the timezone UTC, the handshake
  frame \<^verbatim>\<open>{"id": ...}\<close> of a client, and the states after one client and then a
  second one have registered under the id \<open>to_x\<close> and sent nothing more.
\<close>

definition utc :: "int \<Rightarrow> int" where
  "utc t = 0"

definition hello :: "string \<Rightarrow> exn + frame" where
  "hello id_string = Inr (Text (JObj [(''id'', JStr id_string)]))"

definition one_client :: gateway where
  "one_client = snd (wsg 1 [hello ''to_x''] (init_gateway utc))"


section \<open>The subscriber string\<close>

lemma subscriber_string_Nil: "subscriber_string [] = []"
  by (simp add: subscriber_string_def)

lemma subscriber_string_to:
  "subscriber_string (CHR ''t'' # CHR ''o'' # cs) = ''from'' @ subscriber_string cs"
  by (simp add: subscriber_string_def)

lemma subscriber_string_other:
  "\<not> prefix ''to'' (c # cs) \<Longrightarrow> subscriber_string (c # cs) = c # subscriber_string cs"
  unfolding subscriber_string_def by (subst replace_py.simps) (simp del: prefix_code)

lemma subscriber_string_absent: "\<not> sublist ''to'' s \<Longrightarrow> subscriber_string s = s"
proof (induction s)
  case Nil
  show ?case by (simp add: subscriber_string_Nil)
next
  case (Cons c cs)
  then have "\<not> prefix ''to'' (c # cs)" and "\<not> sublist ''to'' cs"
    by (auto simp: sublist_Cons_right)
  with Cons.IH show ?case by (simp add: subscriber_string_other)
qed

lemma subscriber_string_first:
  "\<not> sublist ''to'' (p @ ''t'') \<Longrightarrow>
   subscriber_string (p @ ''to'' @ r) = p @ ''from'' @ subscriber_string r"
proof (induction p)
  case Nil
  show ?case using subscriber_string_to [of r] by simp
next
  case (Cons c cs)
  have no_prefix: "\<not> prefix ''to'' (c # cs @ ''to'' @ r)"
  proof
    assume "prefix ''to'' (c # cs @ ''to'' @ r)"
    then have c: "c = CHR ''t''" and o: "prefix ''o'' (cs @ ''to'' @ r)" by auto
    from c o have "prefix ''to'' ((c # cs) @ ''t'')" by (cases cs) auto
    then show False using Cons.prems by (meson prefix_imp_sublist)
  qed
  have "\<not> sublist ''to'' (cs @ ''t'')"
    using Cons.prems by (auto simp: sublist_Cons_right)
  with Cons.IH no_prefix show ?case
    using subscriber_string_other [of c "cs @ ''to'' @ r"] by simp
qed

text \<open>
  C1 (as stated, refuted). The specification has only the first occurrence of \<open>to\<close>
  replaced. For the id \<open>to_motor\<close>, which contains \<open>to\<close>, replacing the first occurrence
  gives \<open>from_motor\<close>, and the code derives \<open>from_mofromr\<close>.
\<close>

theorem C1_first_occurrence_only_counterexample:
  "sublist ''to'' ''to_motor''
   \<and> replace_first ''to'' ''from'' ''to_motor'' = ''from_motor''
   \<and> subscriber_string ''to_motor'' = ''from_mofromr''"
  by (simp add: subscriber_string_def sublist_code)

text \<open>
  C1 (amended). The derived subscribe topic is the id with every occurrence of \<open>to\<close>
  replaced by \<open>from\<close>, found from the left without overlap, and all other characters
  unchanged: an id with no occurrence of \<open>to\<close> is returned as it is, and an id whose
  first occurrence of \<open>to\<close> comes after the prefix \<open>p\<close> is \<open>p\<close>, then \<open>from\<close>, then the
  derivation of the rest. The function is total: no error is raised.
\<close>

theorem C1_subscriber_string_every_occurrence:
  "(\<not> sublist ''to'' s \<longrightarrow> subscriber_string s = s)
   \<and> (\<not> sublist ''to'' (p @ ''t'') \<longrightarrow>
        subscriber_string (p @ ''to'' @ r) = p @ ''from'' @ subscriber_string r)"
  using subscriber_string_absent [of s] subscriber_string_first [of p r] by blast

theorem C1_subscriber_string_every_occurrence_witness:
  "\<not> sublist ''to'' ''arduino''
   \<and> subscriber_string ''arduino'' = ''arduino''
   \<and> \<not> sublist ''to'' (''a_'' @ ''t'')
   \<and> subscriber_string (''a_'' @ ''to'' @ ''_motor'') = ''a_'' @ ''from'' @ ''_mofromr''"
  using C1_subscriber_string_every_occurrence [of "''arduino''" "''a_''" "''_motor''"]
    C1_subscriber_string_every_occurrence [of "''_motor''" "''_mo''" "''r''"]
    C1_subscriber_string_every_occurrence [of "''r''"]
  by (simp add: sublist_code)

section \<open>The relay and the handshake\<close>

lemma in_entry_new_entry_sock [simp]:
  "in_entry (KSock w') (new_entry w sub) \<longleftrightarrow> w' = w"
  by (simp add: in_entry_def new_entry_def)

lemma in_entry_new_entry_str [simp]:
  "in_entry (KStr t) (new_entry w sub) \<longleftrightarrow> t = sub"
  by (simp add: in_entry_def new_entry_def)

lemma new_entry_topic [simp]: "new_entry w sub (KStr sub) = Some (VSock w)"
  by (simp add: new_entry_def)

lemma count_entries_remove [simp]:
  "count_entries w (active_sockets (remove_entries w s)) = 0"
  by (simp add: count_entries_def remove_entries_def)

text \<open>One step of the loop, by what \<^verbatim>\<open>recv\<close> gives.\<close>

lemma receive_data_closed:
  "is_ConnectionClosed e \<Longrightarrow>
   receive_data w t (Inl e # rest) s = (Returned, remove_entries w s)"
  by simp

lemma receive_data_frame:
  "receive_data w t (Inr (Text v) # rest) s = receive_data w t rest (publish_payload v t s)"
  by (simp add: json_loads_def)

lemma receive_data_malformed:
  "receive_data w t (Inr Malformed # rest) s = (Raised JSONDecodeError, s)"
  by (simp add: json_loads_def is_ConnectionClosed_def)

text \<open>
  When the loop ends through its handler, no entry of the connection is left and the
  other entries stay; when an exception leaves the coroutine, it is one that the
  handler does not catch, and the table is as it was.
\<close>

lemma receive_data_returned:
  "fst (receive_data w t rs s) = Returned \<Longrightarrow>
   active_sockets (snd (receive_data w t rs s))
     = filter (\<lambda>entry. \<not> in_entry (KSock w) entry) (active_sockets s)"
proof (induction rs arbitrary: s)
  case Nil
  then show ?case by simp
next
  case (Cons r rs)
  then show ?case
    by (auto simp: remove_entries_def publish_payload_def json_loads_def
        split: sum.splits if_splits frame.splits)
qed

lemma receive_data_returned_count:
  "fst (receive_data w t rs s) = Returned \<Longrightarrow>
   count_entries w (active_sockets (snd (receive_data w t rs s))) = 0"
  by (simp add: receive_data_returned count_entries_def)

lemma receive_data_raised:
  "fst (receive_data w t rs s) = Raised e \<Longrightarrow>
   active_sockets (snd (receive_data w t rs s)) = active_sockets s
   \<and> \<not> is_ConnectionClosed e \<and> e \<noteq> TypeError"
proof (induction rs arbitrary: s)
  case Nil
  then show ?case by simp
next
  case (Cons r rs)
  then show ?case
    by (auto simp: remove_entries_def publish_payload_def json_loads_def
        split: sum.splits if_splits frame.splits)
qed

text \<open>The handshake, by what the first \<^verbatim>\<open>recv\<close> gives.\<close>

lemma wsg_handshake:
  "getitem data ''id'' = Inr (JStr id_string) \<Longrightarrow>
   wsg w (Inr (Text data) # rest) s =
     receive_data w id_string rest
       (s\<lparr>wsocket := Some w,
          subscribed := subscribed s @ [subscriber_string id_string],
          active_sockets := active_sockets s @ [new_entry w (subscriber_string id_string)]\<rparr>)"
  by (simp add: wsg_def json_loads_def id_replace_def set_subscriber_topic_def)

lemma wsg_recv_raises:
  "wsg w (Inl e # rest) s =
     (Raised (if e = ConnectionClosedOK then UnboundLocalError else e), s\<lparr>wsocket := Some w\<rparr>)"
  by (simp add: wsg_def)

lemma wsg_malformed:
  "wsg w (Inr Malformed # rest) s = (Raised JSONDecodeError, s\<lparr>wsocket := Some w\<rparr>)"
  by (simp add: wsg_def json_loads_def)

lemma wsg_no_id:
  "map_of obj ''id'' = None \<Longrightarrow>
   wsg w (Inr (Text (JObj obj)) # rest) s = (Raised KeyError, s\<lparr>wsocket := Some w\<rparr>)"
  by (simp add: wsg_def json_loads_def getitem_def)

text \<open>
  A failed handshake (the connection closed before a frame, a frame that is not JSON,
  an object without \<open>id\<close>) leaves \<^verbatim>\<open>active_sockets\<close> as it was: no session is
  registered and no other session is touched.
\<close>

lemma wsg_failed_handshake_table:
  "active_sockets (snd (wsg w (Inl e # rest) s)) = active_sockets s"
  "active_sockets (snd (wsg w (Inr Malformed # rest) s)) = active_sockets s"
  "map_of obj ''id'' = None \<Longrightarrow>
   active_sockets (snd (wsg w (Inr (Text (JObj obj)) # rest) s)) = active_sockets s"
  by (simp_all add: wsg_recv_raises wsg_malformed wsg_no_id)

text \<open>
  C2 (the code at the failing input). A frame that is not JSON makes \<^verbatim>\<open>json.loads\<close>
  raise \<open>JSONDecodeError\<close>, which the handler of line 172 does not list: the exception
  leaves the loop and the state is untouched, so the entry stays. In the run below a
  client registers as \<open>to_x\<close>, sends one command and then a malformed frame: the relay
  ends with the exception, the command has been published, and the table still holds
  one entry for the connection.
\<close>

theorem C2_malformed_frame_keeps_entry:
  "receive_data w t (Inr Malformed # rest) s = (Raised JSONDecodeError, s)
   \<and> fst (wsg 1 [hello ''to_x'', Inr (Text (JObj [(''cmd'', JStr ''on'')])), Inr Malformed]
            (init_gateway utc)) = Raised JSONDecodeError
   \<and> count_entries 1 (active_sockets
        (snd (wsg 1 [hello ''to_x'', Inr (Text (JObj [(''cmd'', JStr ''on'')])), Inr Malformed]
               (init_gateway utc)))) = 1
   \<and> published
        (snd (wsg 1 [hello ''to_x'', Inr (Text (JObj [(''cmd'', JStr ''on'')])), Inr Malformed]
               (init_gateway utc))) = [(JObj [(''cmd'', JStr ''on'')], ''to_x'')]"
  by (simp add: hello_def wsg_handshake getitem_def json_loads_def is_ConnectionClosed_def
      init_gateway_def publish_payload_def count_entries_def subscriber_string_def)

text \<open>
  C7 (the code at the failing input). When the connection closes before any frame,
  \<^verbatim>\<open>recv\<close> raises \<open>ConnectionClosedOK\<close>; line 135 catches it and passes, and line 139
  reads the unassigned \<^verbatim>\<open>data\<close>: \<open>UnboundLocalError\<close> leaves the handler. The table
  is not changed.
\<close>

theorem C7_closed_before_frame_raises:
  "wsg w (Inl ConnectionClosedOK # rest) s
     = (Raised UnboundLocalError, s\<lparr>wsocket := Some w\<rparr>)"
  by (simp add: wsg_def)

section \<open>The shape of the table\<close>

lemma table_of_simps [simp]:
  "table_of [] = []"
  "table_of ((w, sub) # ss) = new_entry w sub # table_of ss"
  by (simp_all add: table_of_def)

lemma table_of_append: "table_of (ss @ ts) = table_of ss @ table_of ts"
  by (simp add: table_of_def)

lemma table_of_filter:
  "filter (\<lambda>entry. \<not> in_entry (KSock w) entry) (table_of ss)
     = table_of (filter (\<lambda>(w', sub). w' \<noteq> w) ss)"
  by (induction ss) (auto simp: table_of_def)

lemma matching_simps [simp]:
  "matching topic [] = []"
  "matching topic ((w, sub) # ss) =
     (if sub = topic then w # matching topic ss else matching topic ss)"
  by (simp_all add: matching_def)

lemma one_client_state:
  "one_client =
     \<lparr>active_sockets = table_of [(1, ''from_x'')], wsocket = Some 1, closed = {}, sent = [],
      published = [], subscribed = [''from_x''], utcoffset = utc\<rparr>"
  by (simp add: one_client_def hello_def wsg_handshake getitem_def subscriber_string_def
      init_gateway_def)


text \<open>
  The table starts empty and every coroutine keeps it the table of some list of
  sessions: the handshake appends one entry, the relay filters, the router (below)
  has no statement that changes it.
\<close>

lemma receive_data_suspended:
  "fst (receive_data w t rs s) = Suspended \<Longrightarrow>
   active_sockets (snd (receive_data w t rs s)) = active_sockets s"
proof (induction rs arbitrary: s)
  case Nil
  then show ?case by simp
next
  case (Cons r rs)
  then show ?case
    by (auto simp: remove_entries_def publish_payload_def json_loads_def
        split: sum.splits if_splits frame.splits)
qed

lemma receive_data_keeps_shape:
  assumes "active_sockets s = table_of ss"
  shows "\<exists>ss'. active_sockets (snd (receive_data w t rs s)) = table_of ss'"
proof (cases "fst (receive_data w t rs s)")
  case Returned
  then show ?thesis
    using assms by (metis receive_data_returned table_of_filter)
next
  case (Raised e)
  then show ?thesis using assms receive_data_raised by metis
next
  case Suspended
  then show ?thesis using assms receive_data_suspended by metis
qed

lemma wsg_cases:
  "active_sockets (snd (wsg w rs s)) = active_sockets s
   \<or> (\<exists>id_string rest.
         wsg w rs s =
           receive_data w id_string rest
             (s\<lparr>wsocket := Some w,
                subscribed := subscribed s @ [subscriber_string id_string],
                active_sockets :=
                  active_sockets s @ [new_entry w (subscriber_string id_string)]\<rparr>))"
  by (auto simp: wsg_def Let_def json_loads_def id_replace_def set_subscriber_topic_def
      split: list.splits sum.splits frame.splits json.splits)

lemma wsg_keeps_shape:
  assumes "active_sockets s = table_of ss"
  shows "\<exists>ss'. active_sockets (snd (wsg w rs s)) = table_of ss'"
proof -
  consider (same) "active_sockets (snd (wsg w rs s)) = active_sockets s"
    | (registered) id_string rest where
      "wsg w rs s =
         receive_data w id_string rest
           (s\<lparr>wsocket := Some w,
              subscribed := subscribed s @ [subscriber_string id_string],
              active_sockets :=
                active_sockets s @ [new_entry w (subscriber_string id_string)]\<rparr>)"
    using wsg_cases by blast
  then show ?thesis
  proof cases
    case same
    then show ?thesis using assms by auto
  next
    case registered
    have "active_sockets s @ [new_entry w (subscriber_string id_string)]
            = table_of (ss @ [(w, subscriber_string id_string)])"
      by (simp add: assms table_of_append)
    then show ?thesis
      unfolding registered by (intro receive_data_keeps_shape) simp
  qed
qed

section \<open>The router\<close>

subsection \<open>The table and the connections under the two scans\<close>

lemma close_matching_table:
  "active_sockets (snd (close_matching topic table s)) = active_sockets s"
  by (induction table arbitrary: s)
     (auto simp: ws_close_def split: option.splits val.splits)

lemma send_matching_table:
  "active_sockets (snd (send_matching topic f table s)) = active_sockets s"
  by (induction table arbitrary: s)
     (auto simp: ws_send_def split: option.splits val.splits sum.splits if_splits)

lemma send_matching_closed:
  "closed (snd (send_matching topic f table s)) = closed s"
  by (induction table arbitrary: s)
     (auto simp: ws_send_def split: option.splits val.splits sum.splits if_splits)

lemma router_table:
  "active_sockets (snd (incoming_message_processing topic payload s)) = active_sockets s"
proof (cases "map_of payload ''report''")
  case None
  then show ?thesis by (simp add: incoming_message_processing_def)
next
  case (Some report)
  obtain out s1 where c:
    "(if report = JStr ''panic'' then close_matching topic (active_sockets s) s
      else (Returned, s)) = (out, s1)"
    by fastforce
  then have s1: "active_sockets s1 = active_sockets s"
    using close_matching_table [of topic "active_sockets s" s]
    by (auto split: if_splits)
  show ?thesis
    using Some c s1 send_matching_table
    by (auto simp: incoming_message_processing_def split: outcome.splits sum.splits)
qed

text \<open>
  On the table of the sessions \<open>ss\<close>, the first scan closes the connection of every
  session bound to the topic and returns; the second scan sends to the sessions bound
  to the topic, in the order of the table, until it meets a closed connection, where
  \<^verbatim>\<open>send\<close> raises.
\<close>

lemma close_matching_sessions:
  "close_matching topic (table_of ss) s
     = (Returned, s\<lparr>closed := closed s \<union> set (matching topic ss)\<rparr>)"
proof (induction ss arbitrary: s)
  case Nil
  show ?case by simp
next
  case (Cons x ss)
  obtain w sub where x: "x = (w, sub)" by (cases x)
  show ?case
  proof (cases "sub = topic")
    case True
    then show ?thesis
      using Cons.IH [of "ws_close w s"] by (simp add: x ws_close_def)
  next
    case False
    then show ?thesis
      using Cons.IH [of s] by (simp add: x)
  qed
qed

lemma send_matching_sessions:
  "send_matching topic f (table_of ss) s
     = (if set (matching topic ss) \<inter> closed s = {} then Returned
        else Raised ConnectionClosedOK,
        s\<lparr>sent := sent s @ map (\<lambda>w. (w, f))
                 (takeWhile (\<lambda>w. w \<notin> closed s) (matching topic ss))\<rparr>)"
proof (induction ss arbitrary: s)
  case Nil
  show ?case by simp
next
  case (Cons x ss)
  obtain w sub where x: "x = (w, sub)" by (cases x)
  show ?case
  proof (cases "sub = topic")
    case False
    then show ?thesis
      using Cons.IH [of s] by (simp add: x)
  next
    case True
    show ?thesis
    proof (cases "w \<in> closed s")
      case True
      with \<open>sub = topic\<close> show ?thesis by (auto simp: x ws_send_def)
    next
      case False
      with \<open>sub = topic\<close> show ?thesis
        using Cons.IH [of "s\<lparr>sent := sent s @ [(w, f)]\<rparr>"] by (simp add: x ws_send_def)
    qed
  qed
qed

subsection \<open>The three steps\<close>

lemma router_panic:
  assumes "map_of payload ''report'' = Some (JStr ''panic'')"
    and "active_sockets s = table_of ss"
  shows "incoming_message_processing topic payload s =
     (let s1 = s\<lparr>closed := closed s \<union> set (matching topic ss)\<rparr> in
      case normalize_timestamp (utcoffset s) payload of
        Inl e \<Rightarrow> (Raised e, s1)
      | Inr payload' \<Rightarrow> send_matching topic (Text (JObj payload')) (table_of ss) s1)"
  using assms
  by (simp add: incoming_message_processing_def close_matching_sessions Let_def
      split: sum.splits)

lemma router_no_panic:
  assumes "map_of payload ''report'' = Some report" and "report \<noteq> JStr ''panic''"
  shows "incoming_message_processing topic payload s =
     (case normalize_timestamp (utcoffset s) payload of
        Inl e \<Rightarrow> (Raised e, s)
      | Inr payload' \<Rightarrow> send_matching topic (Text (JObj payload')) (active_sockets s) s)"
  using assms by (simp add: incoming_message_processing_def)

lemma router_panic_raises:
  assumes "map_of payload ''report'' = Some (JStr ''panic'')"
    and "active_sockets s = table_of ss"
    and "normalize_timestamp (utcoffset s) payload = Inr payload'"
    and "matching topic ss \<noteq> []"
  shows "incoming_message_processing topic payload s =
     (Raised ConnectionClosedOK, s\<lparr>closed := closed s \<union> set (matching topic ss)\<rparr>)"
proof -
  obtain w ws where m: "matching topic ss = w # ws"
    using assms(4) by (cases "matching topic ss") auto
  show ?thesis
    using assms(1-3) by (simp add: router_panic send_matching_sessions m)
qed

text \<open>
  C5. For a payload whose \<open>report\<close> is \<open>panic\<close> and a topic \<open>T\<close>, on the table of the
  sessions \<open>ss\<close>: Step 1 returns, and the connections closed after it are those closed
  before together with the connection of every session bound to \<open>T\<close>, all of them and
  no other. The rest of the router closes nothing more.
\<close>

theorem C5_panic_closes_matching_sessions:
  assumes "map_of payload ''report'' = Some (JStr ''panic'')"
    and "active_sockets s = table_of ss"
  shows "close_matching topic (active_sockets s) s
           = (Returned, s\<lparr>closed := closed s \<union> set (matching topic ss)\<rparr>)
         \<and> closed (snd (incoming_message_processing topic payload s))
           = closed s \<union> set (matching topic ss)"
  using assms
  by (auto simp: router_panic close_matching_sessions Let_def send_matching_closed
      split: sum.splits)

theorem C5_panic_closes_matching_sessions_witness:
  "map_of [(''report'', JStr ''panic'')] ''report'' = Some (JStr ''panic'')
   \<and> active_sockets ((init_gateway utc)\<lparr>active_sockets :=
         table_of [(1, ''from_x''), (2, ''from_y''), (3, ''from_x'')]\<rparr>)
       = table_of [(1, ''from_x''), (2, ''from_y''), (3, ''from_x'')]
   \<and> closed (snd (incoming_message_processing ''from_x'' [(''report'', JStr ''panic'')]
        ((init_gateway utc)\<lparr>active_sockets :=
           table_of [(1, ''from_x''), (2, ''from_y''), (3, ''from_x'')]\<rparr>)))
     = {1, 3}"
  using C5_panic_closes_matching_sessions [of "[(''report'', JStr ''panic'')]"
      "(init_gateway utc)\<lparr>active_sockets :=
         table_of [(1, ''from_x''), (2, ''from_y''), (3, ''from_x'')]\<rparr>"
      "[(1, ''from_x''), (2, ''from_y''), (3, ''from_x'')]" "''from_x''"]
  by (simp add: init_gateway_def)

text \<open>
  C8 (the code at the failing input). One client is registered and bound to
  \<open>from_x\<close>; the bus delivers the panic report \<^verbatim>\<open>{"report": "panic"}\<close> on \<open>from_x\<close>. Step
  1 closes the connection, the entry is still in the table, Step 3 sends on the closed
  connection, and \<open>ConnectionClosedOK\<close> leaves the router: nothing is sent.
\<close>

theorem C8_send_after_panic_close_raises:
  "incoming_message_processing ''from_x'' [(''report'', JStr ''panic'')] one_client
     = (Raised ConnectionClosedOK, one_client\<lparr>closed := {1}\<rparr>)
   \<and> sent (one_client\<lparr>closed := {1}\<rparr>) = []"
  by (simp add: one_client_state normalize_timestamp_def
      router_panic_raises [where ss = "[(1, ''from_x'')]"
        and payload' = "[(''report'', JStr ''panic'')]"])

subsection \<open>The table while the router is suspended\<close>







lemma take_Suc_tl: "take (Suc n) sched = take 1 sched @ take n (tl sched)"
  by (cases sched) simp_all






lemma suspended_idle [simp]: "suspended [] st = st"
  by (simp add: suspended_def)

lemma close_scan_idle:
  "close_scan topic [] table bound s
     = (fst (close_matching topic table s), snd (close_matching topic table s), [])"
  by (induction table arbitrary: s bound)
     (auto split: option.splits val.splits)

lemma send_scan_idle:
  "send_scan topic ws_data [] table bound s
     = (fst (send_matching topic ws_data table s), snd (send_matching topic ws_data table s), [])"
  by (induction table arbitrary: s bound)
     (auto split: option.splits val.splits sum.splits)

lemma router_among_idle:
  "incoming_message_processing_among [] topic payload s
     = (fst (incoming_message_processing topic payload s),
        snd (incoming_message_processing topic payload s), [])"
  by (auto simp: incoming_message_processing_among_def incoming_message_processing_def
      close_scan_idle send_scan_idle split: option.splits outcome.splits sum.splits prod.splits)








subsection \<open>Delivery\<close>


section \<open>The timestamp\<close>

subsection \<open>Digits and calendar fields\<close>


lemma is_digit_digit: "d < 10 \<Longrightarrow> is_digit (digit d)"
  unfolding is_digit_def digit_def by (intro nth_mem) simp

lemma digit_0: "digit 0 = CHR ''0''"
  by (simp add: digit_def)

lemma dec_1: "n < 10 \<Longrightarrow> dec n = [digit n]"
  by (subst dec.simps) simp

lemma dec_2: "10 \<le> n \<Longrightarrow> n < 100 \<Longrightarrow> dec n = [digit (n div 10), digit (n mod 10)]"
  by (subst dec.simps) (simp add: dec_1)

lemma dec_3:
  "100 \<le> n \<Longrightarrow> n < 1000 \<Longrightarrow>
   dec n = [digit (n div 100), digit (n div 10 mod 10), digit (n mod 10)]"
  by (subst dec.simps) (simp add: dec_2 div_mult2_eq [symmetric])

lemma dec_4:
  "1000 \<le> n \<Longrightarrow> n < 10000 \<Longrightarrow>
   dec n = [digit (n div 1000), digit (n div 100 mod 10), digit (n div 10 mod 10),
            digit (n mod 10)]"
  by (subst dec.simps) (simp add: dec_3 div_mult2_eq [symmetric])

lemma rep_simps:
  "replicate 3 c = [c, c, c]" "replicate 2 c = [c, c]" "replicate (Suc 0) c = [c]"
  by (simp_all add: numeral_3_eq_3 numeral_2_eq_2)

lemma zero_pad_2:
  assumes "n < 100"
  shows "zero_pad 2 n = [digit (n div 10), digit (n mod 10)]"
proof (cases "n < 10")
  case True
  then show ?thesis by (simp add: zero_pad_def dec_1 digit_0)
next
  case False
  with assms show ?thesis by (simp add: zero_pad_def dec_2)
qed

lemma calendar_shape_strftime:
  assumes "1000 \<le> year dt" "year dt < 10000" "month dt < 100" "day dt < 100"
    and "hour dt < 100" "minute dt < 100" "second dt < 100"
  shows "calendar_shape (strftime dt)"
  using assms
  by (simp add: strftime_def zero_pad_2 dec_4 is_digit_digit)


lemma month_day_bounds:
  assumes "n < 365"
  shows "case month_day leap n of (m, d) \<Rightarrow> 1 \<le> m \<and> m \<le> 12 \<and> 1 \<le> d \<and> d \<le> 31"
proof -
  define m where "m = (n + 50) div 32"
  have b: "32 * m \<le> n + 50" "n + 50 < 32 * m + 32"
    unfolding m_def by arith+
  with assms have "1 \<le> m" "m \<le> 12" by arith+
  then consider "m = 1" | "m = 2" | "m = 3" | "m = 4" | "m = 5" | "m = 6"
    | "m = 7" | "m = 8" | "m = 9" | "m = 10" | "m = 11" | "m = 12"
    by atomize_elim arith
  then show ?thesis
    using b assms
    by cases
      (auto simp: month_day_def Let_def m_def [symmetric] days_before_month_def
         days_in_month_def)
qed

lemma ord2ymd_bounds:
  assumes "1 \<le> ordinal" "ordinal \<le> 3652059"
  shows "case ord2ymd ordinal of (y, m, d) \<Rightarrow>
           1 \<le> y \<and> y \<le> 9999 \<and> 1 \<le> m \<and> m \<le> 12 \<and> 1 \<le> d \<and> d \<le> 31"
proof -
  define n0 where "n0 = ordinal - 1"
  define n400 where "n400 = n0 div 146097"
  define r400 where "r400 = n0 mod 146097"
  define n100 where "n100 = r400 div 36524"
  define r100 where "r100 = r400 mod 36524"
  define n4 where "n4 = r100 div 1461"
  define r4 where "r4 = r100 mod 1461"
  define n1 where "n1 = r4 div 365"
  define r1 where "r1 = r4 mod 365"
  define y where "y = n400 * 400 + 1 + n100 * 100 + n4 * 4 + n1"
  have n0: "n0 \<le> 3652058" using assms by (simp add: n0_def)
  have e400: "n0 = 146097 * n400 + r400" "r400 < 146097"
    by (simp_all add: n400_def r400_def)
  have e100: "r400 = 36524 * n100 + r100" "r100 < 36524"
    by (simp_all add: n100_def r100_def)
  have e4: "r100 = 1461 * n4 + r4" "r4 < 1461"
    by (simp_all add: n4_def r4_def)
  have e1: "365 * n1 \<le> r4" "r4 < 365 * n1 + 365"
    unfolding n1_def by arith+
  have "n1 \<le> 4" using e1 e4 by arith
  have "n4 \<le> 24" using e4 e100 by arith
  have "n100 \<le> 4" using e100 e400 by arith
  have ub: "(n1 = 4 \<or> n100 = 4 \<longrightarrow> y - 1 \<le> 9999) \<and> (\<not> (n1 = 4 \<or> n100 = 4) \<longrightarrow> y \<le> 9999)"
    using n0 e400 e100 e4 e1 \<open>n1 \<le> 4\<close> \<open>n4 \<le> 24\<close> \<open>n100 \<le> 4\<close> unfolding y_def by arith
  have lb: "n1 = 4 \<or> n100 = 4 \<longrightarrow> 1 \<le> y - 1" unfolding y_def by arith
  have y1: "1 \<le> y" unfolding y_def by simp
  have "r1 < 365" by (simp add: r1_def)
  note md = month_day_bounds [OF this, of "n1 = 3 \<and> (n4 \<noteq> 24 \<or> n100 = 3)"]
  show ?thesis
    using ub lb y1 md
    unfolding ord2ymd_def Let_def n0_def [symmetric] n400_def [symmetric] r400_def [symmetric]
      n100_def [symmetric] r100_def [symmetric] n4_def [symmetric] r4_def [symmetric]
      n1_def [symmetric] r1_def [symmetric] y_def [symmetric]
    by (auto split: prod.splits)
qed

lemma in_years_ordinal:
  "in_years local \<longleftrightarrow>
     1 \<le> local div 86400 + 719163 \<and> local div 86400 + 719163 \<le> 3652059"
  unfolding in_years_def by arith

lemma calendar_fields_bounds:
  assumes "in_years local"
  shows "1 \<le> year (calendar_fields local) \<and> year (calendar_fields local) \<le> 9999
         \<and> 1 \<le> month (calendar_fields local) \<and> month (calendar_fields local) \<le> 12
         \<and> 1 \<le> day (calendar_fields local) \<and> day (calendar_fields local) \<le> 31
         \<and> hour (calendar_fields local) < 24 \<and> minute (calendar_fields local) < 60
         \<and> second (calendar_fields local) < 60"
proof -
  define ordinal where "ordinal = local div 86400 + 719163"
  define secs where "secs = nat (local mod 86400)"
  have r: "1 \<le> ordinal" "ordinal \<le> 3652059"
    using assms unfolding ordinal_def in_years_ordinal by auto
  then have "1 \<le> nat ordinal" "nat ordinal \<le> 3652059" by auto
  note b = ord2ymd_bounds [OF this]
  have "secs < 86400" unfolding secs_def by simp
  then have h: "secs div 3600 < 24" by arith
  show ?thesis
    using b h
    unfolding calendar_fields_def Let_def ordinal_def [symmetric] secs_def [symmetric]
    by (auto split: prod.splits)
qed

lemma fromtimestamp_fields:
  assumes "fromtimestamp off t = Inr dt"
  shows "dt = calendar_fields (t + off t) \<and> in_years (t + off t)
         \<and> in_years (t - 86400 + off (t - 86400))"
  using assms unfolding fromtimestamp_def Let_def by (auto split: if_splits)

lemma fromtimestamp_bounds:
  assumes "fromtimestamp off t = Inr dt"
  shows "1 \<le> year dt \<and> year dt \<le> 9999 \<and> 1 \<le> month dt \<and> month dt \<le> 12
         \<and> 1 \<le> day dt \<and> day dt \<le> 31
         \<and> hour dt < 24 \<and> minute dt < 60 \<and> second dt < 60"
  using fromtimestamp_fields [OF assms] calendar_fields_bounds [of "t + off t"] by simp

lemma calendar_shape_fromtimestamp:
  "fromtimestamp off t = Inr dt \<Longrightarrow> 1000 \<le> year dt \<Longrightarrow> calendar_shape (strftime dt)"
  using fromtimestamp_bounds [of off t dt]
  by (intro calendar_shape_strftime) auto

text \<open>
  With a constant offset from UTC the accepted instants are those whose local time, and
  that of the day before, are dates: the first day of the year 1 is refused.
\<close>

lemma fromtimestamp_constant_offset:
  assumes "\<And>u. off u = c"
  shows "(\<exists>dt. fromtimestamp off t = Inr dt)
           \<longleftrightarrow> - 62135510400 \<le> t + c \<and> t + c \<le> 253402300799"
  unfolding fromtimestamp_def Let_def in_years_def assms by auto

lemma normalize_timestamp_absent:
  "map_of payload ''timestamp'' = None \<Longrightarrow> normalize_timestamp off payload = Inr payload"
  by (simp add: normalize_timestamp_def)

lemma normalize_timestamp_numeric:
  "map_of payload ''timestamp'' = Some v \<Longrightarrow> timestamp_arg v = Inr t \<Longrightarrow>
   fromtimestamp off t = Inr dt \<Longrightarrow>
   normalize_timestamp off payload
     = Inr (AList.update ''timestamp'' (JStr (strftime dt)) payload)"
  by (simp add: normalize_timestamp_def)

lemma timestamp_arg_numeric: "timestamp_arg v = Inr t \<Longrightarrow> numeric v"
  by (cases v) (simp_all add: timestamp_arg_def numeric_def)

lemma timestamp_arg_int:
  "- (2 ^ 63) \<le> t \<Longrightarrow> t < 2 ^ 63 \<Longrightarrow> timestamp_arg (JInt t) = Inr t"
  by (simp add: timestamp_arg_def time_t_def)

lemma timestamp_arg_float:
  "- (2 ^ 63) \<le> float_seconds x \<Longrightarrow> float_seconds x < 2 ^ 63 \<Longrightarrow>
   timestamp_arg (JFloat (Finite x)) = Inr (float_seconds x)"
  by (simp add: timestamp_arg_def time_t_def)

lemma normalize_timestamp_not_numeric:
  "map_of payload ''timestamp'' = Some v \<Longrightarrow> \<not> numeric v \<Longrightarrow>
   normalize_timestamp off payload = Inl TypeError"
  by (cases v) (simp_all add: normalize_timestamp_def timestamp_arg_def numeric_def)

lemma update_present_keys:
  "map_of al k = Some v \<Longrightarrow> map fst (AList.update k v' al) = map fst al"
  by (induction al) (auto split: if_splits)


subsection \<open>The example of the specification\<close>

lemma fromtimestamp_example:
  "fromtimestamp utc 1700000000
     = Inr \<lparr>year = 2023, month = 11, day = 14, hour = 22, minute = 13, second = 20\<rparr>"
  by (simp add: fromtimestamp_def in_years_def calendar_fields_def utc_def ord2ymd_def
      month_day_def Let_def days_before_month_def days_in_month_def)

lemma float_seconds_example: "float_seconds (3400000001 / 2) = 1700000000"
  by code_simp

text \<open>
  At the edges: the first day of the year 1 is refused, since the day before it is not
  a date; the first instant accepted in UTC is 0001-01-02 00:00:00, and a year below
  1000 is printed with the digits it has.
\<close>

lemma fromtimestamp_first_day_refused:
  "fromtimestamp utc (- 62135596800) = Inl RangeError"
  "fromtimestamp utc (- 62135510401) = Inl RangeError"
  "fromtimestamp utc 253402300800 = Inl RangeError"
  by (simp_all add: fromtimestamp_def in_years_def utc_def)

lemma strftime_short_year_examples:
  "map_sum id strftime (fromtimestamp utc (- 62135510400)) = Inr ''1-01-02 00:00:00''"
  "map_sum id strftime (fromtimestamp utc (- 30610224001)) = Inr ''999-12-31 23:59:59''"
  "map_sum id strftime (fromtimestamp utc 253402300799) = Inr ''9999-12-31 23:59:59''"
  by (simp_all add: fromtimestamp_def in_years_def calendar_fields_def utc_def ord2ymd_def
      month_day_def Let_def days_before_month_def days_in_month_def strftime_def zero_pad_2
      dec_1 dec_3 dec_4 digit_def)

lemma strftime_example:
  "strftime \<lparr>year = 2023, month = 11, day = 14, hour = 22, minute = 13, second = 20\<rparr>
     = ''2023-11-14 22:13:20''"
  by (simp add: strftime_def zero_pad_2 dec_4 digit_def)


section \<open>The router's deliveries\<close>







text \<open>
  C6 (as stated, refuted). A payload whose \<open>timestamp\<close> is the string \<open>yesterday\<close> is
  not passed on untouched: \<^verbatim>\<open>fromtimestamp\<close> raises \<open>TypeError\<close>, which leaves the
  router, and the registered client is sent nothing.
\<close>

theorem C6_non_numeric_timestamp_counterexample:
  "\<not> numeric (JStr ''yesterday'')
   \<and> normalize_timestamp utc [(''report'', JStr ''ok''), (''timestamp'', JStr ''yesterday'')]
       = Inl TypeError
   \<and> incoming_message_processing ''from_x''
       [(''report'', JStr ''ok''), (''timestamp'', JStr ''yesterday'')] one_client
     = (Raised TypeError, one_client)
   \<and> sent one_client = []"
  by (simp add: numeric_def router_no_panic one_client_state
      normalize_timestamp_not_numeric [where v = "JStr ''yesterday''"])

text \<open>
  C6 (amended). Step 2 leaves a payload without \<open>timestamp\<close> as it is. A numeric
  \<open>timestamp\<close>, an integer or a float, that \<^verbatim>\<open>fromtimestamp\<close> accepts is replaced, in
  place, by the calendar string of its local time: the keys and their order stay, and
  every other field keeps its value. When the local year has four digits the string
  has the shape \<^verbatim>\<open>YYYY-MM-DD HH:MM:SS\<close>. When the \<open>report\<close> is present and not
  \<open>panic\<close>, the frame that Step 3 sends carries the payload that Step 2 returned.
\<close>

theorem C6_timestamp_rewritten_in_place:
  "(map_of payload ''timestamp'' = None \<longrightarrow> normalize_timestamp off payload = Inr payload)
   \<and> (map_of payload ''timestamp'' = Some v \<and> timestamp_arg v = Inr t
        \<and> fromtimestamp off t = Inr dt \<longrightarrow>
        numeric v
        \<and> normalize_timestamp off payload
            = Inr (AList.update ''timestamp'' (JStr (strftime dt)) payload)
        \<and> map_of (AList.update ''timestamp'' (JStr (strftime dt)) payload)
            = (map_of payload)(''timestamp'' \<mapsto> JStr (strftime dt))
        \<and> map fst (AList.update ''timestamp'' (JStr (strftime dt)) payload) = map fst payload
        \<and> dt = calendar_fields (t + off t)
        \<and> (1000 \<le> year dt \<longrightarrow> calendar_shape (strftime dt)))
   \<and> (map_of payload ''report'' = Some report \<and> report \<noteq> JStr ''panic''
        \<and> normalize_timestamp (utcoffset s) payload = Inr payload' \<longrightarrow>
        incoming_message_processing topic payload s
          = send_matching topic (Text (JObj payload')) (active_sockets s) s)"
  using normalize_timestamp_absent [of payload off]
    normalize_timestamp_numeric [of payload v t off dt]
    timestamp_arg_numeric [of v t]
    update_present_keys [of payload "''timestamp''" v "JStr (strftime dt)"]
    calendar_shape_fromtimestamp [of off t dt]
    fromtimestamp_fields [of off t dt]
    router_no_panic [of payload report topic s]
  by (simp add: update_conv')

theorem C6_timestamp_rewritten_in_place_witness:
  "timestamp_arg (JInt 1700000000) = Inr 1700000000
   \<and> timestamp_arg (JFloat (Finite (3400000001 / 2))) = Inr 1700000000
   \<and> fromtimestamp utc 1700000000
       = Inr \<lparr>year = 2023, month = 11, day = 14, hour = 22, minute = 13, second = 20\<rparr>
   \<and> normalize_timestamp utc
        [(''report'', JStr ''analog_input''), (''value'', JInt 1),
         (''timestamp'', JInt 1700000000)]
       = Inr [(''report'', JStr ''analog_input''), (''value'', JInt 1),
              (''timestamp'', JStr ''2023-11-14 22:13:20'')]
   \<and> normalize_timestamp utc
        [(''timestamp'', JFloat (Finite (3400000001 / 2))), (''report'', JStr ''ok'')]
       = Inr [(''timestamp'', JStr ''2023-11-14 22:13:20''), (''report'', JStr ''ok'')]
   \<and> calendar_shape ''2023-11-14 22:13:20''
   \<and> map_of [(''report'', JStr ''ok'')] ''timestamp'' = None
   \<and> normalize_timestamp utc [(''report'', JStr ''ok'')] = Inr [(''report'', JStr ''ok'')]
   \<and> incoming_message_processing ''from_x''
        [(''report'', JStr ''analog_input''), (''value'', JInt 1),
         (''timestamp'', JInt 1700000000)] one_client
       = (Returned, one_client\<lparr>sent :=
            [(1, Text (JObj [(''report'', JStr ''analog_input''), (''value'', JInt 1),
                             (''timestamp'', JStr ''2023-11-14 22:13:20'')]))]\<rparr>)"
  using C6_timestamp_rewritten_in_place [of
      "[(''report'', JStr ''analog_input''), (''value'', JInt 1),
        (''timestamp'', JInt 1700000000)]" utc "JInt 1700000000" 1700000000
      "\<lparr>year = 2023, month = 11, day = 14, hour = 22, minute = 13, second = 20\<rparr>"
      "JStr ''analog_input''" one_client
      "[(''report'', JStr ''analog_input''), (''value'', JInt 1),
        (''timestamp'', JStr ''2023-11-14 22:13:20'')]" "''from_x''"]
    C6_timestamp_rewritten_in_place [of
      "[(''timestamp'', JFloat (Finite (3400000001 / 2))), (''report'', JStr ''ok'')]" utc
      "JFloat (Finite (3400000001 / 2))" 1700000000
      "\<lparr>year = 2023, month = 11, day = 14, hour = 22, minute = 13, second = 20\<rparr>"]
    C6_timestamp_rewritten_in_place [of "[(''report'', JStr ''ok'')]" utc]
  by (simp add: timestamp_arg_def time_t_def float_seconds_example fromtimestamp_example
      strftime_example one_client_state ws_send_def)

section \<open>The entry of a session\<close>

lemma dom_new_entry: "dom (new_entry w sub) = {KSock w, KStr sub}"
  by (auto simp: new_entry_def split: if_splits)

lemma ran_new_entry: "ran (new_entry w sub) = {VStr ''to_banyan_topic'', VSock w}"
  by (auto simp: new_entry_def ran_def split: if_splits)

text \<open>
  C10 (as stated, refuted). A client registers with the id \<open>arduino\<close>, which has no
  \<open>to\<close>: the derived subscribe topic is the id itself, and the entry put into the table
  has the publish topic \<open>arduino\<close> as one of its two keys.
\<close>

theorem C10_publish_topic_stored_counterexample:
  "subscriber_string ''arduino'' = ''arduino''
   \<and> wsg 1 [hello ''arduino''] (init_gateway utc)
     = (Suspended, (init_gateway utc)\<lparr>wsocket := Some 1, subscribed := [''arduino''],
          active_sockets := [new_entry 1 ''arduino'']\<rparr>)
   \<and> new_entry 1 ''arduino'' (KStr ''arduino'') = Some (VSock 1)"
  by (simp add: hello_def wsg_handshake getitem_def subscriber_string_def init_gateway_def)

text \<open>
  C10 (amended). A successful handshake appends one entry to the table and hands the
  id, as publish topic, to the relay. The entry has exactly two keys: the connection,
  mapped to the string \<open>to_banyan_topic\<close>, and the derived subscribe topic, mapped to the
  connection. A topic is a key of the entry exactly when it is the subscribe topic, a
  connection exactly when it is the entry's own: this is what the router and the relay
  test. The entry has no field for the publish topic; the id is a key of it only when
  the derivation leaves the id unchanged, and a value only when the id is
  \<open>to_banyan_topic\<close>.
\<close>

theorem C10_entry_two_keys:
  "(getitem data ''id'' = Inr (JStr id_string) \<longrightarrow>
      wsg w (Inr (Text data) # rest) s =
        receive_data w id_string rest
          (s\<lparr>wsocket := Some w,
             subscribed := subscribed s @ [subscriber_string id_string],
             active_sockets :=
               active_sockets s @ [new_entry w (subscriber_string id_string)]\<rparr>))
   \<and> dom (new_entry w sub) = {KSock w, KStr sub}
   \<and> card (dom (new_entry w sub)) = 2
   \<and> new_entry w sub (KSock w) = Some (VStr ''to_banyan_topic'')
   \<and> new_entry w sub (KStr sub) = Some (VSock w)
   \<and> (in_entry (KStr topic) (new_entry w sub) \<longleftrightarrow> topic = sub)
   \<and> (in_entry (KSock w') (new_entry w sub) \<longleftrightarrow> w' = w)
   \<and> (KStr id_string \<in> dom (new_entry w (subscriber_string id_string))
        \<longleftrightarrow> subscriber_string id_string = id_string)
   \<and> (VStr id_string \<in> ran (new_entry w (subscriber_string id_string))
        \<longleftrightarrow> id_string = ''to_banyan_topic'')"
  using wsg_handshake [of data id_string w rest s]
  by (auto simp: dom_new_entry ran_new_entry) (simp_all add: new_entry_def)

theorem C10_entry_two_keys_witness:
  "getitem (JObj [(''id'', JStr ''to_x'')]) ''id'' = Inr (JStr ''to_x'')
   \<and> wsg 1 [Inr (Text (JObj [(''id'', JStr ''to_x'')]))] (init_gateway utc)
     = (Suspended, (init_gateway utc)\<lparr>wsocket := Some 1, subscribed := [''from_x''],
          active_sockets := [new_entry 1 ''from_x'']\<rparr>)
   \<and> dom (new_entry 1 ''from_x'') = {KSock 1, KStr ''from_x''}
   \<and> KStr ''to_x'' \<notin> dom (new_entry 1 ''from_x'')
   \<and> VStr ''to_x'' \<notin> ran (new_entry 1 ''from_x'')"
  using C10_entry_two_keys [of "JObj [(''id'', JStr ''to_x'')]" "''to_x''" 1 "[]"
      "init_gateway utc" "''from_x''"]
  by (simp add: getitem_def subscriber_string_def init_gateway_def)

end
